theory Spec2Isabelle
  imports Main "HOL-Library.Sublist" "HOL-Library.Word"
begin

section \<open>Go library functions used by the program (Unix)\<close>

text \<open>
  Go strings are byte sequences; they are modelled as \<open>string\<close> (a list of 8-bit
  characters).  The functions of this section are models of the Go standard library
  (packages \<open>strings\<close>, \<open>path/filepath\<close> and \<open>fmt\<close>) on a Unix system, where the
  path separator is the slash and there are no volume names.
\<close>

definition Separator :: char where
  "Separator = CHR ''/''"

text \<open>\<open>strings.HasPrefix\<close>, \<open>strings.HasSuffix\<close>, \<open>strings.TrimSuffix\<close>.\<close>

definition HasPrefix :: "string \<Rightarrow> string \<Rightarrow> bool" where
  "HasPrefix s p = prefix p s"

definition HasSuffix :: "string \<Rightarrow> string \<Rightarrow> bool" where
  "HasSuffix s suf = suffix suf s"

definition TrimSuffix :: "string \<Rightarrow> string \<Rightarrow> string" where
  "TrimSuffix s suf = (if HasSuffix s suf then take (length s - length suf) s else s)"

text \<open>The elements of a path between separators, and their concatenation with separators.\<close>

fun splitSep :: "string \<Rightarrow> string list" where
  "splitSep [] = [[]]"
| "splitSep (c # cs) =
     (if c = CHR ''/'' then [] # splitSep cs
      else (case splitSep cs of [] \<Rightarrow> [[c]] | x # xs \<Rightarrow> (c # x) # xs))"

fun joinSep :: "string list \<Rightarrow> string" where
  "joinSep [] = []"
| "joinSep [x] = x"
| "joinSep (x # y # ys) = x @ CHR ''/'' # joinSep (y # ys)"

text \<open>
  \<open>filepath.Clean\<close>: the lexical normalisation of a path.  The library works on a byte
  buffer; the model keeps the list \<open>out\<close> of the elements written so far.  Empty
  elements and \<open>.\<close> are dropped; \<open>..\<close> removes the last element written when there is
  one that is not itself \<open>..\<close>, is dropped at the root of a rooted path, and is kept
  otherwise.  An empty result is \<open>.\<close>.
\<close>

definition cleanStep :: "bool \<Rightarrow> string list \<Rightarrow> string \<Rightarrow> string list" where
  "cleanStep rooted out el =
     (if el = [] \<or> el = ''.'' then out
      else if el = ''..'' then
        (if out \<noteq> [] \<and> last out \<noteq> ''..'' then butlast out
         else if rooted then out
         else out @ [''..''])
      else out @ [el])"

definition Clean :: "string \<Rightarrow> string" where
  "Clean path =
     (if path = [] then ''.''
      else let rooted = (hd path = CHR ''/'');
               out = foldl (cleanStep rooted) [] (splitSep path)
           in if rooted then CHR ''/'' # joinSep out
              else if out = [] then ''.'' else joinSep out)"

text \<open>\<open>filepath.Join\<close> of two elements: leading empty elements are ignored, the rest is
  joined with the separator and cleaned; the join of empty elements is empty.\<close>

definition Join :: "string \<Rightarrow> string \<Rightarrow> string" where
  "Join a b =
     (if a \<noteq> [] then Clean (a @ CHR ''/'' # b)
      else if b \<noteq> [] then Clean b
      else [])"

text \<open>\<open>filepath.Ext\<close>: the suffix beginning at the final dot of the final element of the
  path, empty when that element has no dot.  The library scans from the end of the
  string; \<open>extScan\<close> scans the reversed string and keeps what it has passed.\<close>

fun extScan :: "string \<Rightarrow> string \<Rightarrow> string" where
  "extScan acc [] = []"
| "extScan acc (c # cs) =
     (if c = CHR ''/'' then []
      else if c = CHR ''.'' then c # acc
      else extScan (c # acc) cs)"

definition Ext :: "string \<Rightarrow> string" where
  "Ext path = extScan [] (rev path)"

text \<open>\<open>filepath.Base\<close>: the last element of the path, after trailing separators are
  removed; \<open>.\<close> for the empty path and the separator for a path of separators only.\<close>

definition Base :: "string \<Rightarrow> string" where
  "Base path =
     (if path = [] then ''.''
      else let p = rev (dropWhile (\<lambda>c. c = CHR ''/'') (rev path));
               b = rev (takeWhile (\<lambda>c. c \<noteq> CHR ''/'') (rev p))
           in if b = [] then ''/'' else b)"

text \<open>\<open>filepath.Dir\<close>: all but the last element of the path, cleaned.\<close>

definition Dir :: "string \<Rightarrow> string" where
  "Dir path = Clean (rev (dropWhile (\<lambda>c. c \<noteq> CHR ''/'') (rev path)))"

definition IsAbs :: "string \<Rightarrow> bool" where
  "IsAbs path = (path \<noteq> [] \<and> hd path = CHR ''/'')"

text \<open>The verb \<open>%d\<close> of \<open>fmt.Sprintf\<close> on an unsigned integer: its decimal digits.\<close>

function fmtUint :: "nat \<Rightarrow> string" where
  "fmtUint n = (if n < 10 then [''0123456789'' ! n]
                else fmtUint (n div 10) @ [''0123456789'' ! (n mod 10)])"
  by pat_completeness auto
termination
  by (relation "measure id") auto

section \<open>The world of the program\<close>

text \<open>
  The operations on the file system that can fail.  The environment decides, for each
  operation, whether it fails; an operation that fails has no effect, one that succeeds
  is carried out whole.
\<close>

datatype fsop =
    OpMkdirAll string
  | OpOpenFile string
  | OpCopy string
  | OpCatOpen string
  | OpCatCopy
  | OpCatWriteString

text \<open>The values of Go's \<open>error\<close> that the program meets.\<close>

datatype error =
    ErrInvalidPath string
  | ErrIO fsop
  | ErrZipEntry string
  | ErrGzip string
  | ErrInvalid
  | ErrLstat string
  | ErrReadDir string

text \<open>What a Go function that returns \<open>error\<close> does: it returns nil (\<open>Ok\<close>) or an error,
  or it does not return (a run-time panic, or \<open>os.Exit(1)\<close>).\<close>

datatype ret = Ok | Err error | Panic | OsExit1

text \<open>The messages of \<open>log.Fatal\<close> and \<open>log.Fatalf\<close>, and the ways the process or a
  part of it ends: \<open>Done\<close> is normal completion (for \<open>main\<close>, exit status 0), \<open>Fatal\<close>
  a fatal log message followed by exit status 1.\<close>

datatype fatalmsg =
    UnableToRead string
  | UnableToFindAbs string
  | UnableToUnzip error
  | FatalError error

datatype outcome = Done | Fatal fatalmsg | Exit1 | Panicked

text \<open>An entry of a zip archive (\<open>zip.File\<close>): its declared name, whether its file info
  says it is a directory, and its decompressed content (\<open>None\<close> when the entry cannot be
  opened).  The permission bits of an entry are not modelled.\<close>

record zipFile =
  Name :: string
  IsDir :: bool
  Data :: "string option"

text \<open>What opening a gzip input gives: the file cannot be opened, it has no valid gzip
  header, or it decompresses to a stream of bytes.\<close>

datatype gzsrc = GzNoOpen | GzBad | GzStream string

text \<open>The input directory as \<open>filepath.WalkDir\<close> sees it: a file (any entry that is not
  a directory), a directory with its entries in the order \<open>os.ReadDir\<close> returns them, or
  a directory that cannot be read.\<close>

datatype fsnode = FileN string | DirN string "fsnode list" | BadDirN string

fun nodeName :: "fsnode \<Rightarrow> string" where
  "nodeName (FileN n) = n"
| "nodeName (DirN n ds) = n"
| "nodeName (BadDirN n) = n"

fun nodeIsDir :: "fsnode \<Rightarrow> bool" where
  "nodeIsDir (FileN n) = False"
| "nodeIsDir (DirN n ds) = True"
| "nodeIsDir (BadDirN n) = True"

record env =
  lstat :: "fsnode option"
  zipOpenReader :: "string \<Rightarrow> zipFile list option"
  gzOpen :: "string \<Rightarrow> gzsrc"
  getwd :: "string option"
  fails :: "fsop \<Rightarrow> bool"

text \<open>
  The state of a run: the two globals of the program (the table \<open>unzipedFiles\<close> and the
  handle \<open>catFile\<close>, which is nil until the aggregate file is opened), and what the run
  has done to the file system: \<open>cat\<close>, the bytes written to the aggregate file since it
  was opened and truncated; \<open>fs\<close>, the content of the files under the paths the program
  writes; \<open>created\<close>, the paths of the output files it has created, in order; \<open>dirs\<close>,
  the directories it has asked for, in order.  Go's \<open>uint\<close> is taken to be 64 bits wide.
\<close>

record state =
  unzipedFiles :: "string \<rightharpoonup> 64 word"
  catFile :: bool
  cat :: string
  fs :: "string \<rightharpoonup> string"
  created :: "string list"
  dirs :: "string list"

record config =
  dir :: string
  outdir :: string
  ext :: string
  outdirCatFileName :: string
  showHelp :: bool

text \<open>\<open>filepath.Abs\<close>: an absolute path is cleaned, a relative one is joined to the
  working directory, which may be unknown.\<close>

definition Abs :: "env \<Rightarrow> string \<Rightarrow> string option" where
  "Abs e path =
     (if IsAbs path then Some (Clean path)
      else (case getwd e of None \<Rightarrow> None | Some wd \<Rightarrow> Some (Join wd path)))"

text \<open>
  \<open>filepath.WalkDir\<close> with a function \<open>fn\<close> that works on a value \<open>acc\<close>: \<open>fn\<close> is called
  on the root and then on every entry, a directory before its entries; when a directory
  cannot be read \<open>fn\<close> is called on it a second time, with the error; the walk stops at
  the first call of \<open>fn\<close> that does not return nil.  (The function of this program never
  returns \<open>SkipDir\<close> or \<open>SkipAll\<close>, which are left out.)
\<close>

fun walkDir :: "(string \<Rightarrow> fsnode option \<Rightarrow> error option \<Rightarrow> 'a \<Rightarrow> ret \<times> 'a)
                  \<Rightarrow> string \<Rightarrow> fsnode \<Rightarrow> 'a \<Rightarrow> ret \<times> 'a"
and walkDirEntries :: "(string \<Rightarrow> fsnode option \<Rightarrow> error option \<Rightarrow> 'a \<Rightarrow> ret \<times> 'a)
                  \<Rightarrow> string \<Rightarrow> fsnode list \<Rightarrow> 'a \<Rightarrow> ret \<times> 'a" where
  "walkDir fn path (FileN n) acc = fn path (Some (FileN n)) None acc"
| "walkDir fn path (BadDirN n) acc =
     (case fn path (Some (BadDirN n)) None acc of
        (Ok, acc1) \<Rightarrow> fn path (Some (BadDirN n)) (Some (ErrReadDir path)) acc1
      | r \<Rightarrow> r)"
| "walkDir fn path (DirN n ds) acc =
     (case fn path (Some (DirN n ds)) None acc of
        (Ok, acc1) \<Rightarrow> walkDirEntries fn path ds acc1
      | r \<Rightarrow> r)"
| "walkDirEntries fn path [] acc = (Ok, acc)"
| "walkDirEntries fn path (d1 # ds) acc =
     (case walkDir fn (Join path (nodeName d1)) d1 acc of
        (Ok, acc1) \<Rightarrow> walkDirEntries fn path ds acc1
      | r \<Rightarrow> r)"

definition WalkDir :: "string \<Rightarrow> fsnode option
     \<Rightarrow> (string \<Rightarrow> fsnode option \<Rightarrow> error option \<Rightarrow> 'a \<Rightarrow> ret \<times> 'a) \<Rightarrow> 'a \<Rightarrow> ret \<times> 'a" where
  "WalkDir root info fn acc =
     (case info of
        None \<Rightarrow> fn root None (Some (ErrLstat root)) acc
      | Some d \<Rightarrow> walkDir fn root d acc)"

section \<open>The program\<close>

text \<open>
  The functions below follow \<open>main.go\<close>, the program that knows both formats.  (The
  repository also holds an older \<open>main\<close> for zip archives alone, with the same
  \<open>unzipFile\<close>.)  Log lines and the closing of files are left out.
\<close>

text \<open>The function given to \<open>WalkDir\<close> in \<open>main\<close>; \<open>acc\<close> is the slice \<open>filesInDir\<close>.
  Calling \<open>d.IsDir()\<close> on a nil entry would panic.\<close>

definition walkFn :: "string \<Rightarrow> string \<Rightarrow> fsnode option \<Rightarrow> error option \<Rightarrow> string list
                        \<Rightarrow> ret \<times> string list" where
  "walkFn ext_flag path d err filesInDir =
     (case err of
        Some e \<Rightarrow> (Err e, filesInDir)
      | None \<Rightarrow>
          (case d of
             None \<Rightarrow> (Panic, filesInDir)
           | Some n \<Rightarrow>
               if nodeIsDir n then (Ok, filesInDir)
               else if Ext (nodeName n) = ext_flag then (Ok, filesInDir @ [path])
               else (Ok, filesInDir)))"

text \<open>The destinations of a copy: an output file, known by its path, or the aggregate
  file.\<close>

datatype writer = OutFile string | CatFile

fun copyOp :: "writer \<Rightarrow> fsop" where
  "copyOp (OutFile p) = OpCopy p"
| "copyOp CatFile = OpCatCopy"

fun writeTo :: "writer \<Rightarrow> string \<Rightarrow> state \<Rightarrow> state" where
  "writeTo (OutFile p) d s =
     s\<lparr>fs := (fs s)(p \<mapsto> (case fs s p of None \<Rightarrow> d | Some c \<Rightarrow> c @ d))\<rparr>"
| "writeTo CatFile d s = s\<lparr>cat := cat s @ d\<rparr>"

text \<open>The global \<open>catFile\<close> as a destination: nil until the aggregate file is open.\<close>

definition catWriter :: "state \<Rightarrow> writer option" where
  "catWriter s = (if catFile s then Some CatFile else None)"

text \<open>\<open>os.OpenFile\<close> with \<open>O_CREATE|O_TRUNC\<close> (and \<open>os.Create\<close>, which is the same) on an
  output path: the file exists and is empty.\<close>

definition createTrunc :: "string \<Rightarrow> state \<Rightarrow> state" where
  "createTrunc p s = s\<lparr>fs := (fs s)(p \<mapsto> []), created := created s @ [p]\<rparr>"

text \<open>\<open>ioCopy\<close>: \<open>io.Copy\<close> from the decompressed stream \<open>d\<close> to the writer.  A nil
  \<open>*os.File\<close> refuses the copy with \<open>os.ErrInvalid\<close>.\<close>

definition ioCopy :: "env \<Rightarrow> string \<Rightarrow> writer option \<Rightarrow> string \<Rightarrow> state \<Rightarrow> ret \<times> state" where
  "ioCopy e filename w d s =
     (case w of
        None \<Rightarrow> (Err ErrInvalid, s)
      | Some wr \<Rightarrow>
          if fails e (copyOp wr) then (Err (ErrIO (copyOp wr)), s)
          else (Ok, writeTo wr d s))"

text \<open>\<open>copyToFile\<close>: the entry is opened, then \<open>destinationFile.Name()\<close> is evaluated,
  which dereferences the handle and panics when it is nil, then the content is copied.\<close>

definition copyToFile :: "env \<Rightarrow> zipFile \<Rightarrow> writer option \<Rightarrow> state \<Rightarrow> ret \<times> state" where
  "copyToFile e f destinationFile s =
     (case Data f of
        None \<Rightarrow> (Err (ErrZipEntry (Name f)), s)
      | Some d \<Rightarrow>
          (case destinationFile of
             None \<Rightarrow> (Panic, s)
           | Some wr \<Rightarrow>
               ioCopy e (case wr of OutFile p \<Rightarrow> p | CatFile \<Rightarrow> []) (Some wr) d s))"

text \<open>\<open>catFile.WriteString("\n")\<close>: the result of the call is not looked at.\<close>

definition catWriteString :: "env \<Rightarrow> state \<Rightarrow> state" where
  "catWriteString e s =
     (if catFile s \<and> \<not> fails e OpCatWriteString then writeTo CatFile [CHR 0x0A] s
      else s)"

text \<open>The renaming of a repeated path (lines 136 to 141, and again 168 to 173): the
  counter is put in parentheses between the file name and its extension.\<close>

definition renamed :: "string \<Rightarrow> 64 word \<Rightarrow> string" where
  "renamed filePath counter =
     (let dir_part = Dir filePath;
          ext_part = Ext filePath;
          fileName = Base filePath;
          fileName = take (length fileName - length ext_part) fileName;
          fileName = fileName @ ''('' @ fmtUint (unat counter) @ '')'' @ ext_part
      in Join dir_part fileName)"

definition autoRenameRepeatedFiles :: "state \<Rightarrow> string \<Rightarrow> string" where
  "autoRenameRepeatedFiles s filePath =
     (case unzipedFiles s filePath of
        None \<Rightarrow> filePath
      | Some counter \<Rightarrow> renamed filePath counter)"

text \<open>\<open>unzipedFiles[filePath] += 1\<close>: a key that is absent reads as 0.\<close>

definition increment :: "string \<Rightarrow> state \<Rightarrow> state" where
  "increment filePath s =
     s\<lparr>unzipedFiles := (unzipedFiles s)
          (filePath \<mapsto> (case unzipedFiles s filePath of None \<Rightarrow> 0 | Some c \<Rightarrow> c) + 1)\<rparr>"

definition unzipFile :: "env \<Rightarrow> zipFile \<Rightarrow> string \<Rightarrow> state \<Rightarrow> ret \<times> state" where
  "unzipFile e f destination s =
     (let filePath = Join destination (Name f) in
      if \<not> HasPrefix filePath (Clean destination @ [Separator])
      then (Err (ErrInvalidPath filePath), s)
      else if IsDir f then
        (if fails e (OpMkdirAll filePath) then (Err (ErrIO (OpMkdirAll filePath)), s)
         else (Ok, s\<lparr>dirs := dirs s @ [filePath]\<rparr>))
      else if fails e (OpMkdirAll (Dir filePath))
      then (Err (ErrIO (OpMkdirAll (Dir filePath))), s)
      else
        let s1 = s\<lparr>dirs := dirs s @ [Dir filePath]\<rparr>;
            filePath = (case unzipedFiles s1 filePath of
                          None \<Rightarrow> filePath
                        | Some counter \<Rightarrow> renamed filePath counter)
        in if fails e (OpOpenFile filePath) then (Err (ErrIO (OpOpenFile filePath)), s1)
           else
             (case copyToFile e f (Some (OutFile filePath)) (createTrunc filePath s1) of
                (Ok, s2) \<Rightarrow>
                  (case copyToFile e f (catWriter s2) s2 of
                     (Ok, s3) \<Rightarrow> (Ok, increment filePath (catWriteString e s3))
                   | r \<Rightarrow> r)
              | r \<Rightarrow> r))"

text \<open>The loop over the entries of one archive, in \<open>handleZip\<close>.\<close>

fun unzipEntries :: "env \<Rightarrow> zipFile list \<Rightarrow> string \<Rightarrow> state \<Rightarrow> outcome \<times> state" where
  "unzipEntries e [] destination s = (Done, s)"
| "unzipEntries e (f # rest) destination s =
     (case unzipFile e f destination s of
        (Ok, s1) \<Rightarrow> unzipEntries e rest destination s1
      | (Err err, s1) \<Rightarrow> (Fatal (UnableToUnzip err), s1)
      | (Panic, s1) \<Rightarrow> (Panicked, s1)
      | (OsExit1, s1) \<Rightarrow> (Exit1, s1))"

fun handleZip :: "env \<Rightarrow> string list \<Rightarrow> string \<Rightarrow> string \<Rightarrow> state \<Rightarrow> outcome \<times> state" where
  "handleZip e [] ext_flag outdir_flag s = (Done, s)"
| "handleZip e (f # rest) ext_flag outdir_flag s =
     (case zipOpenReader e f of
        None \<Rightarrow> (Fatal (UnableToRead ext_flag), s)
      | Some reader \<Rightarrow>
          (case Abs e outdir_flag of
             None \<Rightarrow> (Fatal (UnableToFindAbs outdir_flag), s)
           | Some destination \<Rightarrow>
               (case unzipEntries e reader destination s of
                  (Done, s1) \<Rightarrow> handleZip e rest ext_flag outdir_flag s1
                | r \<Rightarrow> r)))"

text \<open>\<open>copyFileGz\<close>: a gzip input that cannot be opened ends the process with
  \<open>os.Exit(1)\<close>; a bad gzip header is returned as an error.\<close>

definition copyFileGz :: "env \<Rightarrow> string \<Rightarrow> string \<Rightarrow> writer option \<Rightarrow> state \<Rightarrow> ret \<times> state" where
  "copyFileGz e gzFilename newFilename w s =
     (case gzOpen e gzFilename of
        GzNoOpen \<Rightarrow> (OsExit1, s)
      | GzBad \<Rightarrow> (Err (ErrGzip gzFilename), s)
      | GzStream d \<Rightarrow> ioCopy e newFilename w d s)"

fun handleGz :: "env \<Rightarrow> string list \<Rightarrow> string \<Rightarrow> string \<Rightarrow> state \<Rightarrow> outcome \<times> state" where
  "handleGz e [] ext_flag outdir_flag s = (Done, s)"
| "handleGz e (gzFilename # rest) ext_flag outdir_flag s =
     (let newFilename = TrimSuffix gzFilename ''.gz'';
          newFilename = autoRenameRepeatedFiles s newFilename
      in if fails e (OpOpenFile newFilename)
         then (Fatal (FatalError (ErrIO (OpOpenFile newFilename))), s)
         else
           (case copyFileGz e gzFilename newFilename (Some (OutFile newFilename))
                   (createTrunc newFilename s) of
              (Ok, s1) \<Rightarrow>
                (case copyFileGz e gzFilename newFilename (catWriter s1) s1 of
                   (Ok, s2) \<Rightarrow> handleGz e rest ext_flag outdir_flag (catWriteString e s2)
                 | (Err err, s2) \<Rightarrow> (Fatal (FatalError err), s2)
                 | (Panic, s2) \<Rightarrow> (Panicked, s2)
                 | (OsExit1, s2) \<Rightarrow> (Exit1, s2))
            | (Err err, s1) \<Rightarrow> (Fatal (FatalError err), s1)
            | (Panic, s1) \<Rightarrow> (Panicked, s1)
            | (OsExit1, s1) \<Rightarrow> (Exit1, s1)))"

text \<open>The state at the start of a run; \<open>fs0\<close> is what the output paths hold before it.\<close>

definition initial :: "(string \<rightharpoonup> string) \<Rightarrow> state" where
  "initial fs0 =
     \<lparr>unzipedFiles = Map.empty, catFile = False, cat = [], fs = fs0,
      created = [], dirs = []\<rparr>"

text \<open>The scan of \<open>main\<close> (lines 32 to 47): what \<open>WalkDir\<close> returns, which \<open>main\<close> does
  not look at, and the slice \<open>filesInDir\<close>.\<close>

definition scan :: "config \<Rightarrow> env \<Rightarrow> ret \<times> string list" where
  "scan cfg e = WalkDir (dir cfg) (lstat e) (walkFn (ext cfg)) []"

text \<open>\<open>main\<close>.  The error of opening the aggregate file is assigned to the blank
  identifier: when the file cannot be opened \<open>catFile\<close> stays nil and the run goes on.\<close>

definition main :: "config \<Rightarrow> env \<Rightarrow> (string \<rightharpoonup> string) \<Rightarrow> outcome \<times> state" where
  "main cfg e fs0 =
     (if showHelp cfg then (Done, initial fs0)
      else
        (case scan cfg e of
           (Panic, filesInDir) \<Rightarrow> (Panicked, initial fs0)
         | (r, filesInDir) \<Rightarrow>
             let catFilePath = Join (outdir cfg) (outdirCatFileName cfg);
                 s = (if fails e (OpCatOpen catFilePath) then initial fs0
                      else (initial fs0)\<lparr>catFile := True, cat := []\<rparr>)
             in if Ext (ext cfg) = ''.gz''
                then handleGz e filesInDir (ext cfg) (outdir cfg) s
                else handleZip e filesInDir (ext cfg) (outdir cfg) s))"

section \<open>Notions used to state the properties\<close>

text \<open>
  The elements written by \<open>Clean\<close> are not empty and contain no separator.
\<close>

definition elemsOk :: "string list \<Rightarrow> bool" where
  "elemsOk out = (\<forall>x \<in> set out. x \<noteq> [] \<and> CHR ''/'' \<notin> set x)"

text \<open>
  The entries of the input directory in the order of the walk, each with its path: a
  directory comes before its entries.  \<open>readable\<close> says that every directory of the tree
  can be read, so that the walk meets no error.
\<close>

fun entries :: "string \<Rightarrow> fsnode \<Rightarrow> (string \<times> fsnode) list" where
  "entries path (FileN n) = [(path, FileN n)]"
| "entries path (BadDirN n) = [(path, BadDirN n)]"
| "entries path (DirN n ds) =
     (path, DirN n ds) # concat (map (\<lambda>d. entries (Join path (nodeName d)) d) ds)"

fun readable :: "fsnode \<Rightarrow> bool" where
  "readable (FileN n) = True"
| "readable (BadDirN n) = False"
| "readable (DirN n ds) = list_all readable ds"

text \<open>
  The paths, among walked entries, of the files with the given extension.
\<close>

definition selected :: "string \<Rightarrow> (string \<times> fsnode) list \<Rightarrow> string list" where
  "selected ext_flag es =
     map fst (filter (\<lambda>(p, d). \<not> nodeIsDir d \<and> Ext (nodeName d) = ext_flag) es)"






text \<open>
  The path under which \<open>unzipFile\<close> creates the output file of an entry.
\<close>

definition outPath :: "state \<Rightarrow> string \<Rightarrow> zipFile \<Rightarrow> string" where
  "outPath s destination f =
     (case unzipedFiles s (Join destination (Name f)) of
        None \<Rightarrow> Join destination (Name f)
      | Some counter \<Rightarrow> renamed (Join destination (Name f)) counter)"

text \<open>
  Two states agree on the two globals, on the bytes of the aggregate file, on the paths
  created and the directories asked for, and on the content of every created file;
  two results agree when they end the same way in states that agree.
\<close>

definition sameOutput :: "state \<Rightarrow> state \<Rightarrow> bool" where
  "sameOutput s t =
     (unzipedFiles s = unzipedFiles t \<and> catFile s = catFile t \<and> cat s = cat t
      \<and> created s = created t \<and> dirs s = dirs t
      \<and> (\<forall>p \<in> set (created s). fs s p = fs t p))"

definition sameResult :: "'a \<times> state \<Rightarrow> 'a \<times> state \<Rightarrow> bool" where
  "sameResult x y = (fst x = fst y \<and> sameOutput (snd x) (snd y))"

section \<open>Concrete worlds\<close>

text \<open>
  Small worlds on which the program is run below: a directory tree, the zip archives and
  the gzip streams found under some of its paths, and the operations that fail.  The
  working directory is \<open>/home/u\<close>.
\<close>

text \<open>
  A world from a tree, archives and gzip streams given by path, and a fault predicate;
  the flags of a run with the default name of the aggregate file.
\<close>

definition world :: "fsnode \<Rightarrow> (string \<times> zipFile list) list \<Rightarrow> (string \<times> string) list
                       \<Rightarrow> (fsop \<Rightarrow> bool) \<Rightarrow> env" where
  "world tree archives gzips faults =
     \<lparr>lstat = Some tree,
      zipOpenReader = map_of archives,
      gzOpen = (\<lambda>p. case map_of gzips p of None \<Rightarrow> GzNoOpen | Some d \<Rightarrow> GzStream d),
      getwd = Some ''/home/u'',
      fails = faults\<rparr>"

definition flags :: "string \<Rightarrow> string \<Rightarrow> string \<Rightarrow> config" where
  "flags d out x =
     \<lparr>dir = d, outdir = out, ext = x, outdirCatFileName = ''unknown_blob'', showHelp = False\<rparr>"

definition noFault :: "fsop \<Rightarrow> bool" where
  "noFault op = False"

definition fileEntry :: "string \<Rightarrow> string \<Rightarrow> zipFile" where
  "fileEntry n d = \<lparr>Name = n, IsDir = False, Data = Some d\<rparr>"

definition dirEntry :: "string \<Rightarrow> zipFile" where
  "dirEntry n = \<lparr>Name = n, IsDir = True, Data = Some []\<rparr>"

definition plainWorld :: env where
  "plainWorld = world (DirN ''in'' [FileN ''a.zip'', FileN ''b.zip''])
     [(''in/a.zip'', [dirEntry ''docs/'', fileEntry ''docs/x.txt'' ''X'', fileEntry ''y.txt'' ''Y'']),
      (''in/b.zip'', [fileEntry ''z.txt'' ''Z''])] [] noFault"

definition slipWorld :: env where
  "slipWorld = world (DirN ''in'' [FileN ''a.zip''])
     [(''in/a.zip'', [fileEntry ''y.txt'' ''Y'', fileEntry ''../../etc/passwd'' ''P'',
                      fileEntry ''later.txt'' ''L''])] [] noFault"

definition opened :: state where
  "opened = (initial Map.empty)\<lparr>catFile := True, cat := []\<rparr>"

definition threeWorld :: env where
  "threeWorld = world (DirN ''in'' [FileN ''a.zip'', FileN ''b.zip'', FileN ''c.zip''])
     [(''in/a.zip'', [fileEntry ''a.txt'' ''A1'']),
      (''in/b.zip'', [fileEntry ''a.txt'' ''A2'']),
      (''in/c.zip'', [fileEntry ''a.txt'' ''A3''])] [] noFault"

definition gzWorld :: env where
  "gzWorld = world (DirN ''in'' [FileN ''data.csv.gz''])
     [] [(''in/data.csv.gz'', ''x,y'' @ [CHR 0x0A] @ ''1,2'' @ [CHR 0x0A])] noFault"

definition catOpenFails :: "fsop \<Rightarrow> bool" where
  "catOpenFails op = (case op of OpCatOpen p \<Rightarrow> True | _ \<Rightarrow> False)"

definition newlineFails :: "fsop \<Rightarrow> bool" where
  "newlineFails op = (case op of OpCatWriteString \<Rightarrow> True | _ \<Rightarrow> False)"

definition badWorld :: env where
  "badWorld = world (DirN ''in'' [FileN ''a.zip'', BadDirN ''b'', FileN ''c.zip''])
     [(''in/a.zip'', [fileEntry ''y.txt'' ''Y'']),
      (''in/c.zip'', [fileEntry ''z.txt'' ''Z''])] [] noFault"

definition mixedTree :: fsnode where
  "mixedTree = DirN ''in''
     [FileN ''a.zip'', FileN ''b.ZIP'',
      DirN ''c.zip'' [FileN ''d.zip'', FileN ''e.txt''],
      FileN ''f.zip.bak'', FileN ''g.tar.zip'', FileN ''zip'', FileN ''h.zipx'']"

section \<open>Lemmas\<close>

declare fmtUint.simps [simp del]

subsection \<open>Paths\<close>

lemma splitSep_not_Nil: "splitSep p \<noteq> []"
  by (induction p) (auto split: list.splits)

lemma splitSep_no_sep: "x \<in> set (splitSep p) \<Longrightarrow> CHR ''/'' \<notin> set x"
proof (induction p arbitrary: x)
  case Nil
  then show ?case by simp
next
  case (Cons c cs)
  then show ?case
    by (cases "splitSep cs") (auto split: if_splits)
qed

lemma cleanStep_elemsOk:
  assumes "elemsOk out" and "CHR ''/'' \<notin> set el"
  shows "elemsOk (cleanStep rooted out el)"
  using assms by (auto simp: elemsOk_def cleanStep_def dest: in_set_butlastD)

lemma foldl_cleanStep_elemsOk:
  "elemsOk out \<Longrightarrow> \<forall>x \<in> set els. CHR ''/'' \<notin> set x
     \<Longrightarrow> elemsOk (foldl (cleanStep rooted) out els)"
  by (induction els arbitrary: out) (simp_all add: cleanStep_elemsOk)

lemma joinSep_last:
  "out \<noteq> [] \<Longrightarrow> elemsOk out \<Longrightarrow> joinSep out \<noteq> [] \<and> last (joinSep out) = last (last out)"
  by (induction out rule: joinSep.induct) (auto simp: elemsOk_def)

lemma Clean_elems: "elemsOk (foldl (cleanStep rooted) [] (splitSep p))"
  by (rule foldl_cleanStep_elemsOk) (auto simp: elemsOk_def dest: splitSep_no_sep)

lemma Clean_not_Nil: "Clean p \<noteq> []"
  using joinSep_last [OF _ Clean_elems] by (auto simp: Clean_def Let_def)

lemma Clean_trailing_sep:
  assumes "Clean p = xs @ [CHR ''/'']"
  shows "xs = []"
proof (rule ccontr)
  assume ne: "xs \<noteq> []"
  define rooted where "rooted = (hd p = CHR ''/'')"
  define out where "out = foldl (cleanStep rooted) [] (splitSep p)"
  have ok: "elemsOk out"
    unfolding out_def by (rule Clean_elems)
  have l: "last (Clean p) = CHR ''/''"
    using assms by simp
  show False
  proof (cases "out = []")
    case True
    with assms ne show False
      by (auto simp: Clean_def Let_def out_def rooted_def split: if_splits)
  next
    case False
    from joinSep_last [OF False ok] have j: "joinSep out \<noteq> []" "last (joinSep out) = last (last out)"
      by simp_all
    from False ok have "last out \<noteq> []" "CHR ''/'' \<notin> set (last out)"
      by (auto simp: elemsOk_def)
    then have "last (last out) \<noteq> CHR ''/''"
      using last_in_set by metis
    moreover have "last (Clean p) = last (joinSep out) \<or> Clean p = ''.''"
      using False j by (auto simp: Clean_def Let_def out_def rooted_def)
    ultimately show False
      using l j by auto
  qed
qed

lemma Join_not_root_sep: "Join a b \<noteq> Clean d @ [CHR ''/'']"
proof
  assume eq: "Join a b = Clean d @ [CHR ''/'']"
  then obtain q where "Clean q = Clean d @ [CHR ''/'']"
    by (auto simp: Join_def split: if_splits)
  then have "Clean d = []" by (rule Clean_trailing_sep)
  then show False by (simp add: Clean_not_Nil)
qed

lemma HasPrefix_strict:
  "HasPrefix (Join destination n) (Clean destination @ [Separator])
     \<longleftrightarrow> strict_prefix (Clean destination @ [Separator]) (Join destination n)"
  using Join_not_root_sep [of destination n destination]
  by (auto simp: HasPrefix_def Separator_def strict_prefix_def)

lemma extScan_length:
  "length (extScan acc r) \<le> length acc + length (takeWhile (\<lambda>c. c \<noteq> CHR ''/'') r)"
proof (induction r arbitrary: acc)
  case Nil
  then show ?case by simp
next
  case (Cons c cs)
  from Cons [of "c # acc"] show ?case by simp
qed

text \<open>
  The extension of a path is never longer than its base name, so the slice
  \<open>fileName[:len(fileName)-len(ext)]\<close> of the renaming is always in range; this is
  why \<open>renamed\<close> can take it with \<open>take\<close>.
\<close>

lemma Ext_le_Base: "length (Ext p) \<le> length (Base p)"
proof -
  let ?t = "takeWhile (\<lambda>c. c \<noteq> CHR ''/'') (rev p)"
  have 1: "length (Ext p) \<le> length ?t"
    using extScan_length [of "[]" "rev p"] by (simp add: Ext_def)
  have 2: "length ?t \<le> length (Base p)"
  proof (cases "rev p")
    case Nil
    then show ?thesis by simp
  next
    case (Cons c cs)
    then have ne: "p \<noteq> []" by auto
    show ?thesis
    proof (cases "c = CHR ''/''")
      case True
      with Cons show ?thesis by simp
    next
      case False
      with Cons have "dropWhile (\<lambda>c. c = CHR ''/'') (rev p) = rev p" by simp
      moreover from False Cons have "?t \<noteq> []" by simp
      ultimately show ?thesis using ne by (simp add: Base_def Let_def)
    qed
  qed
  from 1 2 show ?thesis by simp
qed

subsection \<open>The loops of the zip extractor\<close>

lemma unzipEntries_append:
  "unzipEntries e (xs @ ys) destination s =
     (case unzipEntries e xs destination s of
        (Done, s1) \<Rightarrow> unzipEntries e ys destination s1
      | r \<Rightarrow> r)"
  by (induction xs arbitrary: s) (auto split: prod.splits ret.splits outcome.splits)

lemma handleZip_append:
  "handleZip e (xs @ ys) x out s =
     (case handleZip e xs x out s of
        (Done, s1) \<Rightarrow> handleZip e ys x out s1
      | r \<Rightarrow> r)"
  by (induction xs arbitrary: s) (auto split: prod.splits option.splits outcome.splits)

lemma unzipFile_rejects:
  assumes "\<not> HasPrefix (Join destination (Name f)) (Clean destination @ [Separator])"
  shows "unzipFile e f destination s = (Err (ErrInvalidPath (Join destination (Name f))), s)"
  using assms by (simp add: unzipFile_def Let_def)

lemma unzipFile_Ok_prefix:
  assumes "fst (unzipFile e f destination s) = Ok"
  shows "HasPrefix (Join destination (Name f)) (Clean destination @ [Separator])"
  using assms by (auto simp: unzipFile_def Let_def split: if_splits)

subsection \<open>The scan\<close>

lemma selected_append: "selected x (xs @ ys) = selected x xs @ selected x ys"
  by (simp add: selected_def)

lemma walk_readable:
  "readable d \<Longrightarrow> walkDir (walkFn x) path d acc = (Ok, acc @ selected x (entries path d))"
  "list_all readable ds \<Longrightarrow> walkDirEntries (walkFn x) path ds acc
       = (Ok, acc @ selected x (concat (map (\<lambda>d. entries (Join path (nodeName d)) d) ds)))"
proof (induction "walkFn x" path d acc and "walkFn x" path ds acc
       rule: walkDir_walkDirEntries.induct)
  case (1 path n acc)
  then show ?case by (simp add: walkFn_def selected_def)
next
  case (2 path n acc)
  then show ?case by simp
next
  case (3 path n ds acc)
  have "walkFn x path (Some (DirN n ds)) None acc = (Ok, acc)"
    by (simp add: walkFn_def)
  with 3 show ?case by (simp add: selected_def)
next
  case (4 path acc)
  then show ?case by (simp add: selected_def)
next
  case (5 path d1 ds acc)
  then show ?case by (simp add: selected_append)
qed

subsection \<open>What a run that completes has written\<close>





lemma unzipFile_file_eq:
  assumes "\<not> IsDir f"
      and "HasPrefix (Join destination (Name f)) (Clean destination @ [Separator])"
      and "\<not> fails e (OpMkdirAll (Dir (Join destination (Name f))))"
      and "\<not> fails e (OpOpenFile (outPath s destination f))"
  shows "unzipFile e f destination s =
      (case copyToFile e f (Some (OutFile (outPath s destination f)))
              (createTrunc (outPath s destination f)
                 (s\<lparr>dirs := dirs s @ [Dir (Join destination (Name f))]\<rparr>)) of
         (Ok, s2) \<Rightarrow>
           (case copyToFile e f (catWriter s2) s2 of
              (Ok, s3) \<Rightarrow> (Ok, increment (outPath s destination f) (catWriteString e s3))
            | r \<Rightarrow> r)
       | r \<Rightarrow> r)"
  using assms
  by (cases "unzipedFiles s (Join destination (Name f))")
     (simp_all add: unzipFile_def Let_def outPath_def
        cong del: prod.case_cong_weak ret.case_cong_weak)









subsection \<open>Two runs from different contents of the output paths\<close>

lemma sameResult_pair [simp]: "sameResult (r, s) (r', t) = (r = r' \<and> sameOutput s t)"
  by (simp add: sameResult_def)

lemma sameResult_bind:
  assumes "sameResult x y"
      and "\<And>s1 t1. sameOutput s1 t1 \<Longrightarrow> sameResult (k s1) (k' t1)"
  shows "sameResult (case x of (Ok, s1) \<Rightarrow> k s1 | r \<Rightarrow> r)
                    (case y of (Ok, t1) \<Rightarrow> k' t1 | r \<Rightarrow> r)"
  using assms by (cases x; cases y) (auto split: ret.splits)

lemma same_createTrunc:
  "sameOutput s t \<Longrightarrow> sameOutput (createTrunc p s) (createTrunc p t)"
  by (simp add: sameOutput_def createTrunc_def)

lemma same_created_createTrunc: "p \<in> set (created (createTrunc p s))"
  by (simp add: createTrunc_def)

lemma same_writeTo_out:
  "sameOutput s t \<Longrightarrow> p \<in> set (created s)
     \<Longrightarrow> sameOutput (writeTo (OutFile p) d s) (writeTo (OutFile p) d t)"
  by (simp add: sameOutput_def)

lemma same_writeTo_cat:
  "sameOutput s t \<Longrightarrow> sameOutput (writeTo CatFile d s) (writeTo CatFile d t)"
  by (simp add: sameOutput_def)

lemma same_ioCopy_out:
  "sameOutput s t \<Longrightarrow> p \<in> set (created s)
     \<Longrightarrow> sameResult (ioCopy e n (Some (OutFile p)) d s) (ioCopy e n (Some (OutFile p)) d t)"
  using same_writeTo_out [of s t p d] by (simp add: ioCopy_def)

lemma same_catWriter: "sameOutput s t \<Longrightarrow> catWriter s = catWriter t"
  by (simp add: sameOutput_def catWriter_def)

lemma same_ioCopy_cat:
  "sameOutput s t \<Longrightarrow> sameResult (ioCopy e n (catWriter s) d s) (ioCopy e n (catWriter t) d t)"
  by (auto simp: ioCopy_def catWriter_def same_writeTo_cat) (simp_all add: sameOutput_def)

lemma same_copyToFile_out:
  "sameOutput s t \<Longrightarrow> p \<in> set (created s)
     \<Longrightarrow> sameResult (copyToFile e f (Some (OutFile p)) s) (copyToFile e f (Some (OutFile p)) t)"
  by (simp add: copyToFile_def same_ioCopy_out split: option.splits)

lemma same_copyToFile_cat:
  assumes "sameOutput s t"
  shows "sameResult (copyToFile e f (catWriter s) s) (copyToFile e f (catWriter t) t)"
proof (cases "catFile s")
  case True
  with assms have "catWriter s = Some CatFile" "catWriter t = Some CatFile"
    by (simp_all add: catWriter_def sameOutput_def)
  with same_ioCopy_cat [OF assms] assms show ?thesis
    by (simp add: copyToFile_def split: option.splits)
next
  case False
  with assms have "catWriter s = None" "catWriter t = None"
    by (simp_all add: catWriter_def sameOutput_def)
  with assms show ?thesis
    by (simp add: copyToFile_def split: option.splits)
qed

lemma same_catWriteString:
  "sameOutput s t \<Longrightarrow> sameOutput (catWriteString e s) (catWriteString e t)"
  by (auto simp: catWriteString_def same_writeTo_cat) (simp_all add: sameOutput_def)

lemma same_increment:
  "sameOutput s t \<Longrightarrow> sameOutput (increment p s) (increment p t)"
  by (simp add: sameOutput_def increment_def)

lemma same_copyFileGz_out:
  "sameOutput s t \<Longrightarrow> p \<in> set (created s)
     \<Longrightarrow> sameResult (copyFileGz e gz n (Some (OutFile p)) s) (copyFileGz e gz n (Some (OutFile p)) t)"
  by (simp add: copyFileGz_def same_ioCopy_out split: gzsrc.splits)

lemma same_copyFileGz_cat:
  "sameOutput s t
     \<Longrightarrow> sameResult (copyFileGz e gz n (catWriter s) s) (copyFileGz e gz n (catWriter t) t)"
  by (simp add: copyFileGz_def same_ioCopy_cat split: gzsrc.splits)

lemma same_created: "sameOutput s t \<Longrightarrow> created s = created t"
  by (simp add: sameOutput_def)

lemma same_unzipFile:
  assumes "sameOutput s t"
  shows "sameResult (unzipFile e f destination s) (unzipFile e f destination t)"
proof -
  let ?fp = "Join destination (Name f)"
  from assms have p: "outPath s destination f = outPath t destination f"
    by (simp add: outPath_def sameOutput_def)
  let ?p = "outPath s destination f"
  let ?s1 = "s\<lparr>dirs := dirs s @ [Dir ?fp]\<rparr>" and ?t1 = "t\<lparr>dirs := dirs t @ [Dir ?fp]\<rparr>"
  from assms have s1: "sameOutput ?s1 ?t1"
    by (simp add: sameOutput_def)
  consider (rej) "\<not> HasPrefix ?fp (Clean destination @ [Separator])"
    | (dir) "HasPrefix ?fp (Clean destination @ [Separator])" "IsDir f"
    | (nomk) "HasPrefix ?fp (Clean destination @ [Separator])" "\<not> IsDir f"
             "fails e (OpMkdirAll (Dir ?fp))"
    | (noopen) "HasPrefix ?fp (Clean destination @ [Separator])" "\<not> IsDir f"
             "\<not> fails e (OpMkdirAll (Dir ?fp))" "fails e (OpOpenFile ?p)"
    | (go) "HasPrefix ?fp (Clean destination @ [Separator])" "\<not> IsDir f"
             "\<not> fails e (OpMkdirAll (Dir ?fp))" "\<not> fails e (OpOpenFile ?p)"
    by blast
  then show ?thesis
  proof cases
    case rej
    with assms show ?thesis by (simp add: unzipFile_def Let_def)
  next
    case dir
    with assms show ?thesis by (simp add: unzipFile_def Let_def sameOutput_def)
  next
    case nomk
    with assms show ?thesis by (simp add: unzipFile_def Let_def)
  next
    case noopen
    have "unzipFile e f destination s = (Err (ErrIO (OpOpenFile ?p)), ?s1)"
      using noopen
      by (cases "unzipedFiles s ?fp") (simp_all add: unzipFile_def Let_def outPath_def)
    moreover have "unzipFile e f destination t = (Err (ErrIO (OpOpenFile ?p)), ?t1)"
      using noopen unfolding p
      by (cases "unzipedFiles t ?fp") (simp_all add: unzipFile_def Let_def outPath_def)
    ultimately show ?thesis using s1 by simp
  next
    case go
    note es = unzipFile_file_eq [OF go(2,1,3,4)]
    note et = unzipFile_file_eq [OF go(2,1,3) go(4) [unfolded p], folded p]
    show ?thesis
      unfolding es et
      by (intro sameResult_bind same_copyToFile_out same_createTrunc s1
            same_created_createTrunc same_copyToFile_cat)
         (auto intro!: same_increment same_catWriteString)
  qed
qed

lemma same_unzipEntries:
  "sameOutput s t
     \<Longrightarrow> sameResult (unzipEntries e es destination s) (unzipEntries e es destination t)"
proof (induction es arbitrary: s t)
  case Nil
  then show ?case by simp
next
  case (Cons f es)
  from same_unzipFile [OF Cons.prems, of e f destination]
  obtain r s1 t1 where u: "unzipFile e f destination s = (r, s1)"
      "unzipFile e f destination t = (r, t1)" and st: "sameOutput s1 t1"
    by (cases "unzipFile e f destination s"; cases "unzipFile e f destination t") simp
  show ?case
    using u st Cons.IH [OF st] by (cases r) simp_all
qed

lemma same_handleZip:
  "sameOutput s t \<Longrightarrow> sameResult (handleZip e files x out s) (handleZip e files x out t)"
proof (induction files arbitrary: s t)
  case Nil
  then show ?case by simp
next
  case (Cons a files)
  show ?case
  proof (cases "zipOpenReader e a")
    case None
    with Cons.prems show ?thesis by simp
  next
    case (Some es)
    show ?thesis
    proof (cases "Abs e out")
      case None
      with Some Cons.prems show ?thesis by simp
    next
      case (Some destination)
      from same_unzipEntries [OF Cons.prems, of e es destination]
      obtain r s1 t1 where u: "unzipEntries e es destination s = (r, s1)"
          "unzipEntries e es destination t = (r, t1)" and st: "sameOutput s1 t1"
        by (cases "unzipEntries e es destination s"; cases "unzipEntries e es destination t")
           simp
      show ?thesis
        using u st Cons.IH [OF st] \<open>zipOpenReader e a = Some es\<close> Some
        by (cases r) simp_all
    qed
  qed
qed

lemma same_handleGz:
  "sameOutput s t \<Longrightarrow> sameResult (handleGz e files x out s) (handleGz e files x out t)"
proof (induction files arbitrary: s t)
  case Nil
  then show ?case by simp
next
  case (Cons gz files)
  define p where "p = autoRenameRepeatedFiles s (TrimSuffix gz ''.gz'')"
  from Cons.prems have pt: "autoRenameRepeatedFiles t (TrimSuffix gz ''.gz'') = p"
    by (simp add: p_def autoRenameRepeatedFiles_def sameOutput_def)
  show ?case
  proof (cases "fails e (OpOpenFile p)")
    case True
    with Cons.prems show ?thesis
      by (simp add: Let_def pt p_def [symmetric])
  next
    case False
    from same_copyFileGz_out [OF same_createTrunc [OF Cons.prems] same_created_createTrunc,
        of e gz p p]
    obtain r s1 t1 where c1: "copyFileGz e gz p (Some (OutFile p)) (createTrunc p s) = (r, s1)"
        "copyFileGz e gz p (Some (OutFile p)) (createTrunc p t) = (r, t1)"
      and st1: "sameOutput s1 t1"
      by (cases "copyFileGz e gz p (Some (OutFile p)) (createTrunc p s)";
          cases "copyFileGz e gz p (Some (OutFile p)) (createTrunc p t)") simp
    from same_copyFileGz_cat [OF st1, of e gz p]
    obtain r2 s2 t2 where c2: "copyFileGz e gz p (catWriter s1) s1 = (r2, s2)"
        "copyFileGz e gz p (catWriter t1) t1 = (r2, t2)"
      and st2: "sameOutput s2 t2"
      by (cases "copyFileGz e gz p (catWriter s1) s1";
          cases "copyFileGz e gz p (catWriter t1) t1") simp
    have rec: "sameResult (handleGz e files x out (catWriteString e s2))
                          (handleGz e files x out (catWriteString e t2))"
      by (rule Cons.IH) (rule same_catWriteString [OF st2])
    show ?thesis
      using False c1 c2 st1 st2 rec
      by (cases r; cases r2) (simp_all add: Let_def pt p_def [symmetric])
  qed
qed

lemma same_initial: "sameOutput (initial fsA) (initial fsB)"
  by (simp add: sameOutput_def initial_def)

lemma same_main: "sameResult (main cfg e fsA) (main cfg e fsB)"
proof -
  have o: "sameOutput ((initial fsA)\<lparr>catFile := True, cat := []\<rparr>)
                      ((initial fsB)\<lparr>catFile := True, cat := []\<rparr>)"
    by (simp add: sameOutput_def initial_def)
  obtain r filesInDir where sc: "scan cfg e = (r, filesInDir)"
    by (cases "scan cfg e")
  show ?thesis
    using same_initial [of fsA fsB] o
      same_handleGz [of _ _ e filesInDir "ext cfg" "outdir cfg"]
      same_handleZip [of _ _ e filesInDir "ext cfg" "outdir cfg"]
    by (cases r) (simp_all add: main_def sc Let_def)
qed

subsection \<open>Facts for running the program on the concrete worlds\<close>

lemmas run_defs = main_def initial_def unzipFile_def Let_def copyToFile_def ioCopy_def
  catWriter_def catWriteString_def createTrunc_def increment_def HasPrefix_def Separator_def
  copyFileGz_def autoRenameRepeatedFiles_def Abs_def IsAbs_def

lemmas world_defs = world_def flags_def noFault_def fileEntry_def dirEntry_def opened_def
  plainWorld_def slipWorld_def threeWorld_def gzWorld_def badWorld_def
  catOpenFails_def newlineFails_def

lemma path_facts:
  "Join ''/home/u'' ''out'' = ''/home/u/out''"
  "Clean ''/home/u/out'' = ''/home/u/out''"
  "Join ''out'' ''unknown_blob'' = ''out/unknown_blob''"
  "Join ''/home/u/out'' ''docs/'' = ''/home/u/out/docs''"
  "Join ''/home/u/out'' ''docs/x.txt'' = ''/home/u/out/docs/x.txt''"
  "Join ''/home/u/out'' ''y.txt'' = ''/home/u/out/y.txt''"
  "Join ''/home/u/out'' ''z.txt'' = ''/home/u/out/z.txt''"
  "Join ''/home/u/out'' ''a.txt'' = ''/home/u/out/a.txt''"
  "Dir ''/home/u/out/docs/x.txt'' = ''/home/u/out/docs''"
  "Dir ''/home/u/out/y.txt'' = ''/home/u/out''"
  "Dir ''/home/u/out/z.txt'' = ''/home/u/out''"
  "Dir ''/home/u/out/a.txt'' = ''/home/u/out''"
  "renamed ''/home/u/out/a.txt'' 1 = ''/home/u/out/a(1).txt''"
  "Ext ''.zip'' = ''.zip''"
  "Ext ''.gz'' = ''.gz''"
  "TrimSuffix ''in/data.csv.gz'' ''.gz'' = ''in/data.csv''"
  by code_simp+

lemma scan_facts:
  "scan (flags ''in'' ''out'' ''.zip'') plainWorld = (Ok, [''in/a.zip'', ''in/b.zip''])"
  "scan (flags ''in'' ''out'' ''.zip'') (plainWorld\<lparr>fails := catOpenFails\<rparr>)
     = (Ok, [''in/a.zip'', ''in/b.zip''])"
  "scan (flags ''in'' ''out'' ''.zip'') (plainWorld\<lparr>fails := newlineFails\<rparr>)
     = (Ok, [''in/a.zip'', ''in/b.zip''])"
  "scan (flags ''in'' ''out'' ''.zip'') threeWorld
     = (Ok, [''in/a.zip'', ''in/b.zip'', ''in/c.zip''])"
  "scan (flags ''in'' ''out'' ''.gz'') gzWorld = (Ok, [''in/data.csv.gz''])"
  "scan (flags ''in'' ''out'' ''.zip'') (world (DirN ''in'' []) [] [] catOpenFails) = (Ok, [])"
  "scan (flags ''in'' ''out'' ''.zip'') badWorld = (Err (ErrReadDir ''in/b''), [''in/a.zip''])"
  by code_simp+

lemma plain_run:
  "fst (main (flags ''in'' ''out'' ''.zip'') plainWorld fs0) = Done"
  "created (snd (main (flags ''in'' ''out'' ''.zip'') plainWorld fs0))
     = [''/home/u/out/docs/x.txt'', ''/home/u/out/y.txt'', ''/home/u/out/z.txt'']"
  by (simp_all only: main_def scan_facts) (simp_all add: run_defs world_defs path_facts)

subsection \<open>The gzip extractor and the table\<close>

lemma writeTo_table: "unzipedFiles (writeTo w d s) = unzipedFiles s"
  by (cases w) simp_all

lemma copyFileGz_table:
  "unzipedFiles (snd (copyFileGz e gz n w s)) = unzipedFiles s"
  by (cases w; cases "gzOpen e gz")
     (simp_all add: copyFileGz_def ioCopy_def writeTo_table)

lemma handleGz_table:
  "unzipedFiles (snd (handleGz e files x out s)) = unzipedFiles s"
proof (induction files arbitrary: s)
  case Nil
  then show ?case by simp
next
  case (Cons gz files)
  define p where "p = autoRenameRepeatedFiles s (TrimSuffix gz ''.gz'')"
  obtain r1 s1 where c1: "copyFileGz e gz p (Some (OutFile p)) (createTrunc p s) = (r1, s1)"
    by (cases "copyFileGz e gz p (Some (OutFile p)) (createTrunc p s)")
  obtain r2 s2 where c2: "copyFileGz e gz p (catWriter s1) s1 = (r2, s2)"
    by (cases "copyFileGz e gz p (catWriter s1) s1")
  have t1: "unzipedFiles s1 = unzipedFiles s"
    using copyFileGz_table [of e gz p "Some (OutFile p)" "createTrunc p s"] c1
    by (simp add: createTrunc_def)
  have t2: "unzipedFiles s2 = unzipedFiles s"
    using copyFileGz_table [of e gz p "catWriter s1" s1] c2 t1 by simp
  have t3: "unzipedFiles (catWriteString e s2) = unzipedFiles s"
    using t2 by (simp add: catWriteString_def)
  show ?case
    using c1 c2 t1 t2 t3 Cons.IH [of "catWriteString e s2"]
    by (cases r1; cases r2) (simp_all add: Let_def p_def [symmetric])
qed

section \<open>The claims\<close>

text \<open>
  Claim C1.  For every entry of a zip archive, the output path computed from the output
  root and the declared name of the entry is checked to have the cleaned output root
  followed by a path separator as a strict prefix.  When \<open>unzipFile\<close> returns nil the
  path has passed the check.  When the path does not pass, \<open>unzipFile\<close> returns the
  error "invalid file path" and leaves the state as it was: no directory is made, no
  output file is created, nothing is appended to the aggregate file; and a run of
  \<open>handleZip\<close> that reaches this entry (after archives and entries that were extracted)
  ends there with a fatal message, in the state it had before the entry, so that the
  entries and archives that follow are never looked at.
\<close>

theorem zip_slip_guard:
  "(fst (unzipFile e f destination s) = Ok
      \<longrightarrow> strict_prefix (Clean destination @ [Separator]) (Join destination (Name f)))
   \<and> (\<not> strict_prefix (Clean destination @ [Separator]) (Join destination (Name f))
      \<longrightarrow> unzipFile e f destination s = (Err (ErrInvalidPath (Join destination (Name f))), s)
        \<and> (\<forall>archives1 a archives2 entries1 entries2 s0 s1 x out.
             handleZip e archives1 x out s0 = (Done, s1)
             \<and> zipOpenReader e a = Some (entries1 @ f # entries2)
             \<and> Abs e out = Some destination
             \<and> unzipEntries e entries1 destination s1 = (Done, s)
             \<longrightarrow> handleZip e (archives1 @ a # archives2) x out s0
                   = (Fatal (UnableToUnzip (ErrInvalidPath (Join destination (Name f)))), s)))"
proof (intro conjI impI allI)
  assume "fst (unzipFile e f destination s) = Ok"
  then show "strict_prefix (Clean destination @ [Separator]) (Join destination (Name f))"
    using unzipFile_Ok_prefix HasPrefix_strict by blast
next
  assume n: "\<not> strict_prefix (Clean destination @ [Separator]) (Join destination (Name f))"
  then have np: "\<not> HasPrefix (Join destination (Name f)) (Clean destination @ [Separator])"
    by (simp add: HasPrefix_strict)
  then show r: "unzipFile e f destination s = (Err (ErrInvalidPath (Join destination (Name f))), s)"
    by (rule unzipFile_rejects)
  fix archives1 a archives2 entries1 entries2 s0 s1 x out
  assume h: "handleZip e archives1 x out s0 = (Done, s1)
             \<and> zipOpenReader e a = Some (entries1 @ f # entries2)
             \<and> Abs e out = Some destination
             \<and> unzipEntries e entries1 destination s1 = (Done, s)"
  have "unzipEntries e (entries1 @ f # entries2) destination s1
          = (Fatal (UnableToUnzip (ErrInvalidPath (Join destination (Name f)))), s)"
    using h r by (simp add: unzipEntries_append)
  then show "handleZip e (archives1 @ a # archives2) x out s0
          = (Fatal (UnableToUnzip (ErrInvalidPath (Join destination (Name f)))), s)"
    using h by (simp add: handleZip_append)
qed

text \<open>
  An archive whose second entry is named \<open>../../etc/passwd\<close>: the first entry is
  extracted, the second ends the run, the third is never written.
\<close>

theorem zip_slip_guard_witness:
  "\<not> strict_prefix (Clean ''/home/u/out'' @ [Separator])
        (Join ''/home/u/out'' (Name (fileEntry ''../../etc/passwd'' ''P'')))
   \<and> unzipFile slipWorld (fileEntry ''../../etc/passwd'' ''P'') ''/home/u/out'' opened
       = (Err (ErrInvalidPath ''/home/etc/passwd''), opened)
   \<and> handleZip slipWorld [''in/a.zip''] ''.zip'' ''out'' opened
       = (Fatal (UnableToUnzip (ErrInvalidPath ''/home/etc/passwd'')),
          snd (unzipEntries slipWorld [fileEntry ''y.txt'' ''Y''] ''/home/u/out'' opened))
   \<and> created (snd (handleZip slipWorld [''in/a.zip''] ''.zip'' ''out'' opened))
       = [''/home/u/out/y.txt'']
   \<and> fst (unzipFile slipWorld (fileEntry ''y.txt'' ''Y'') ''/home/u/out'' opened) = Ok
   \<and> strict_prefix (Clean ''/home/u/out'' @ [Separator])
        (Join ''/home/u/out'' (Name (fileEntry ''y.txt'' ''Y'')))"
proof -
  let ?evil = "fileEntry ''../../etc/passwd'' ''P''"
  let ?good = "fileEntry ''y.txt'' ''Y''"
  let ?s = "snd (unzipEntries slipWorld [?good] ''/home/u/out'' opened)"
  have n: "\<not> strict_prefix (Clean ''/home/u/out'' @ [Separator]) (Join ''/home/u/out'' (Name ?evil))"
    by code_simp
  have p: "Join ''/home/u/out'' (Name ?evil) = ''/home/etc/passwd''"
    by code_simp
  have h1: "handleZip slipWorld [] ''.zip'' ''out'' opened = (Done, opened)"
    by simp
  have h2: "zipOpenReader slipWorld ''in/a.zip'' = Some ([?good] @ ?evil # [fileEntry ''later.txt'' ''L''])"
    by (simp add: slipWorld_def world_def)
  have h3: "Abs slipWorld ''out'' = Some ''/home/u/out''"
    by code_simp
  have "fst (unzipEntries slipWorld [?good] ''/home/u/out'' opened) = Done"
    by code_simp
  then have h4: "unzipEntries slipWorld [?good] ''/home/u/out'' opened = (Done, ?s)"
    by (simp add: prod_eq_iff)
  have ok: "fst (unzipFile slipWorld ?good ''/home/u/out'' opened) = Ok"
    by code_simp
  have a: "unzipFile slipWorld ?evil ''/home/u/out'' opened
            = (Err (ErrInvalidPath ''/home/etc/passwd''), opened)"
    using zip_slip_guard [of slipWorld ?evil "''/home/u/out''" opened] n p by simp
  have b: "handleZip slipWorld ([] @ ''in/a.zip'' # []) ''.zip'' ''out'' opened
            = (Fatal (UnableToUnzip (ErrInvalidPath ''/home/etc/passwd'')), ?s)"
    using zip_slip_guard [of slipWorld ?evil "''/home/u/out''" ?s] n p h1 h2 h3 h4 by metis
  have c: "created ?s = [''/home/u/out/y.txt'']"
    by code_simp
  have d: "strict_prefix (Clean ''/home/u/out'' @ [Separator]) (Join ''/home/u/out'' (Name ?good))"
    using zip_slip_guard [of slipWorld ?good "''/home/u/out''" opened] ok by blast
  from n a b c d ok show ?thesis by simp
qed



text \<open>
  Claim C3 (not met by the program).  The claim says that the counter of the zip
  extractor is kept under the original output path and that entries with the same
  original path get pairwise different output paths.  In \<open>unzipFile\<close> the variable
  \<open>filePath\<close> is overwritten by the renamed path before \<open>unzipedFiles[filePath] += 1\<close>,
  so the counter of the original path stays at 1 and the renamed path gets a counter of
  its own.  Three archives that each hold an entry \<open>a.txt\<close> are extracted to
  \<open>a.txt\<close>, \<open>a(1).txt\<close> and \<open>a(1).txt\<close> again: the third entry overwrites the output
  file of the second.
\<close>

theorem repeated_name_overwritten:
  "fst (main (flags ''in'' ''out'' ''.zip'') threeWorld Map.empty) = Done
   \<and> created (snd (main (flags ''in'' ''out'' ''.zip'') threeWorld Map.empty))
       = [''/home/u/out/a.txt'', ''/home/u/out/a(1).txt'', ''/home/u/out/a(1).txt'']
   \<and> \<not> distinct (created (snd (main (flags ''in'' ''out'' ''.zip'') threeWorld Map.empty)))
   \<and> fs (snd (main (flags ''in'' ''out'' ''.zip'') threeWorld Map.empty))
        ''/home/u/out/a(1).txt'' = Some ''A3''
   \<and> unzipedFiles (snd (main (flags ''in'' ''out'' ''.zip'') threeWorld Map.empty))
        ''/home/u/out/a.txt'' = Some 1
   \<and> unzipedFiles (snd (main (flags ''in'' ''out'' ''.zip'') threeWorld Map.empty))
        ''/home/u/out/a(1).txt'' = Some 2"
  by (simp_all only: main_def scan_facts) (simp_all add: run_defs world_defs path_facts)

text \<open>
  Claim C4 (not met by the program).  The claim says that the gzip extractor records a
  derived output path as used.  \<open>handleGz\<close> calls \<open>autoRenameRepeatedFiles\<close>, which only
  reads the table, and never writes to \<open>unzipedFiles\<close>: whatever the inputs,
  \<open>handleGz\<close> leaves the table as it found it.  After a run on one gzip file
  its output path is not in the table and would be returned unchanged again, and
  \<open>handleGz\<close> on two inputs with the same derived path creates that path twice.
\<close>

theorem gzip_never_records:
  "unzipedFiles (snd (handleGz e files x out s)) = unzipedFiles s
   \<and> fst (main (flags ''in'' ''out'' ''.gz'') gzWorld Map.empty) = Done
   \<and> created (snd (main (flags ''in'' ''out'' ''.gz'') gzWorld Map.empty)) = [''in/data.csv'']
   \<and> unzipedFiles (snd (main (flags ''in'' ''out'' ''.gz'') gzWorld Map.empty)) ''in/data.csv''
       = None
   \<and> autoRenameRepeatedFiles (snd (main (flags ''in'' ''out'' ''.gz'') gzWorld Map.empty))
        ''in/data.csv'' = ''in/data.csv''
   \<and> created (snd (handleGz gzWorld [''in/data.csv.gz'', ''in/data.csv.gz''] ''.gz'' ''out''
                      opened)) = [''in/data.csv'', ''in/data.csv'']"
proof -
  have "fst (main (flags ''in'' ''out'' ''.gz'') gzWorld Map.empty) = Done
   \<and> created (snd (main (flags ''in'' ''out'' ''.gz'') gzWorld Map.empty)) = [''in/data.csv'']
   \<and> unzipedFiles (snd (main (flags ''in'' ''out'' ''.gz'') gzWorld Map.empty)) ''in/data.csv''
       = None
   \<and> autoRenameRepeatedFiles (snd (main (flags ''in'' ''out'' ''.gz'') gzWorld Map.empty))
        ''in/data.csv'' = ''in/data.csv''
   \<and> created (snd (handleGz gzWorld [''in/data.csv.gz'', ''in/data.csv.gz''] ''.gz'' ''out''
                      opened)) = [''in/data.csv'', ''in/data.csv'']"
    by (simp_all only: main_def scan_facts) (simp_all add: run_defs world_defs path_facts)
  with handleGz_table [of e files x out s] show ?thesis
    by blast
qed

text \<open>
  Claim C5 (not met by the program).  The claim says that the gzip extractor creates the
  output file under the output directory.  \<open>handleGz\<close> does not use \<open>outdir\<close>: the
  output path is the path of the input without \<open>.gz\<close>, beside the input.  With the
  input directory \<open>in\<close> and the output directory \<open>out\<close>, \<open>in/data.csv.gz\<close> is
  extracted to \<open>in/data.csv\<close> (with the bytes of the decompressed stream) and nothing is
  written at \<open>out/data.csv\<close>.
\<close>

theorem gzip_ignores_outdir:
  "outdir (flags ''in'' ''out'' ''.gz'') = ''out''
   \<and> fst (main (flags ''in'' ''out'' ''.gz'') gzWorld Map.empty) = Done
   \<and> created (snd (main (flags ''in'' ''out'' ''.gz'') gzWorld Map.empty)) = [''in/data.csv'']
   \<and> fs (snd (main (flags ''in'' ''out'' ''.gz'') gzWorld Map.empty)) ''in/data.csv''
       = Some (''x,y'' @ [CHR 0x0A] @ ''1,2'' @ [CHR 0x0A])
   \<and> fs (snd (main (flags ''in'' ''out'' ''.gz'') gzWorld Map.empty)) ''out/data.csv'' = None
   \<and> \<not> HasPrefix ''in/data.csv'' ''out''"
  by (simp_all only: main_def scan_facts) (simp_all add: run_defs world_defs path_facts)

text \<open>
  Claim C6 (not met by the program).  The claim says that every file system error on
  creating or writing a file, the aggregate file included, ends the run at once with a
  fatal message.  \<open>main\<close> drops the error of opening the aggregate file: on an empty
  input directory the run completes with exit status 0; on a directory with archives
  the first output file is still written, and the run then ends in a panic on the nil
  handle, not in a fatal message.  The result of writing the newline is dropped as
  well: when these writes fail the run completes, with an aggregate file without
  newlines.
\<close>

theorem aggregate_open_error_ignored:
  "fails (world (DirN ''in'' []) [] [] catOpenFails) (OpCatOpen (Join ''out'' ''unknown_blob''))
   \<and> fst (main (flags ''in'' ''out'' ''.zip'') (world (DirN ''in'' []) [] [] catOpenFails)
             Map.empty) = Done
   \<and> fst (main (flags ''in'' ''out'' ''.zip'') (plainWorld\<lparr>fails := catOpenFails\<rparr>) Map.empty)
       = Panicked
   \<and> created (snd (main (flags ''in'' ''out'' ''.zip'') (plainWorld\<lparr>fails := catOpenFails\<rparr>)
                      Map.empty)) = [''/home/u/out/docs/x.txt'']
   \<and> fst (main (flags ''in'' ''out'' ''.zip'') (plainWorld\<lparr>fails := newlineFails\<rparr>) Map.empty)
       = Done
   \<and> cat (snd (main (flags ''in'' ''out'' ''.zip'') (plainWorld\<lparr>fails := newlineFails\<rparr>)
                  Map.empty)) = ''XYZ''"
  by (simp_all only: main_def scan_facts) (simp_all add: run_defs world_defs path_facts)

text \<open>
  Claim C7 (not met by the program).  The claim says that no extraction is performed
  after an error of the directory walk.  The function given to \<open>WalkDir\<close> returns the
  error, which stops the walk, but \<open>main\<close> does not look at what \<open>WalkDir\<close> returns:
  the files found before the error are extracted and the run completes with exit
  status 0.  Here the directory \<open>in/b\<close> cannot be read; \<open>in/a.zip\<close> is extracted and
  \<open>in/c.zip\<close> is never seen.
\<close>

theorem walk_error_dropped:
  "scan (flags ''in'' ''out'' ''.zip'') badWorld = (Err (ErrReadDir ''in/b''), [''in/a.zip''])
   \<and> fst (main (flags ''in'' ''out'' ''.zip'') badWorld Map.empty) = Done
   \<and> created (snd (main (flags ''in'' ''out'' ''.zip'') badWorld Map.empty))
       = [''/home/u/out/y.txt'']
   \<and> fs (snd (main (flags ''in'' ''out'' ''.zip'') badWorld Map.empty)) ''/home/u/out/y.txt''
       = Some ''Y''"
  by (simp_all only: main_def scan_facts) (simp_all add: run_defs world_defs path_facts)

text \<open>
  Claim C8.  When the walk meets no error, the scan returns exactly the paths of the
  entries that are not directories and whose extension \<open>filepath.Ext\<close> (the suffix of the
  name from its last dot) is equal to the filter string, in the order in which the walk
  discovers them.  Equality of strings is exact: a directory is never selected, whatever
  its name, and a name whose extension differs from the filter in case or by further
  characters is not selected.  (The program tells files from directories by
  \<open>d.IsDir()\<close> alone; every entry that is not a directory counts as a file.)
\<close>

theorem scanner_selects:
  assumes "lstat e = Some root" and "readable root"
  shows "scan cfg e = (Ok, map fst (filter (\<lambda>(p, d). \<not> nodeIsDir d \<and> Ext (nodeName d) = ext cfg)
                                       (entries (dir cfg) root)))"
  using assms walk_readable(1) [of root "ext cfg" "dir cfg" "[]"]
  by (simp add: scan_def WalkDir_def selected_def)

text \<open>
  A tree with an upper-case extension, a directory named like an archive, a longer
  extension, a double extension and a name without a dot.
\<close>

theorem scanner_selects_witness:
  "lstat (world mixedTree [] [] noFault) = Some mixedTree
   \<and> readable mixedTree
   \<and> scan (flags ''in'' ''out'' ''.zip'') (world mixedTree [] [] noFault)
       = (Ok, [''in/a.zip'', ''in/c.zip/d.zip'', ''in/g.tar.zip''])"
proof -
  have l: "lstat (world mixedTree [] [] noFault) = Some mixedTree"
    by (simp add: world_def)
  have r: "readable mixedTree" by code_simp
  have e: "map fst (filter (\<lambda>(p, d). \<not> nodeIsDir d \<and> Ext (nodeName d) = ext (flags ''in'' ''out'' ''.zip''))
                (entries (dir (flags ''in'' ''out'' ''.zip'')) mixedTree))
           = [''in/a.zip'', ''in/c.zip/d.zip'', ''in/g.tar.zip'']"
    by code_simp
  from scanner_selects [OF l r, of "flags ''in'' ''out'' ''.zip''"] e l r show ?thesis by simp
qed

text \<open>
  Claim C9.  For an entry of a zip archive that is a directory, \<open>unzipFile\<close> creates no
  output file, appends nothing to the aggregate file and leaves the table
  \<open>unzipedFiles\<close> as it is; it returns nil exactly when the path passes the check of the
  output root and \<open>MkdirAll\<close> succeeds, and then the only effect is that the directory
  tree of the path has been asked for.
\<close>

theorem directory_entry_frame:
  assumes "IsDir f" and "unzipFile e f destination s = (r, s')"
  shows "fs s' = fs s \<and> created s' = created s \<and> cat s' = cat s
         \<and> unzipedFiles s' = unzipedFiles s \<and> catFile s' = catFile s
         \<and> (r = Ok \<longleftrightarrow> HasPrefix (Join destination (Name f)) (Clean destination @ [Separator])
                        \<and> \<not> fails e (OpMkdirAll (Join destination (Name f))))
         \<and> dirs s' = (if r = Ok then dirs s @ [Join destination (Name f)] else dirs s)"
  using assms by (auto simp: unzipFile_def Let_def split: if_splits)

text \<open>
  The directory entry \<open>docs/\<close> under the output root \<open>/home/u/out\<close>.
\<close>

theorem directory_entry_frame_witness:
  "IsDir (dirEntry ''docs/'')
   \<and> fst (unzipFile plainWorld (dirEntry ''docs/'') ''/home/u/out'' opened) = Ok
   \<and> fs (snd (unzipFile plainWorld (dirEntry ''docs/'') ''/home/u/out'' opened)) = fs opened
   \<and> created (snd (unzipFile plainWorld (dirEntry ''docs/'') ''/home/u/out'' opened)) = []
   \<and> cat (snd (unzipFile plainWorld (dirEntry ''docs/'') ''/home/u/out'' opened)) = []
   \<and> unzipedFiles (snd (unzipFile plainWorld (dirEntry ''docs/'') ''/home/u/out'' opened))
       = unzipedFiles opened
   \<and> dirs (snd (unzipFile plainWorld (dirEntry ''docs/'') ''/home/u/out'' opened))
       = [''/home/u/out/docs'']"
proof -
  let ?u = "unzipFile plainWorld (dirEntry ''docs/'') ''/home/u/out'' opened"
  have i: "IsDir (dirEntry ''docs/'')" by (simp add: dirEntry_def)
  have u: "?u = (fst ?u, snd ?u)" by simp
  have k: "fst ?u = Ok" by code_simp
  have o: "created opened = []" "cat opened = []" "dirs opened = []"
    by (simp_all add: opened_def initial_def)
  have j: "Join ''/home/u/out'' (Name (dirEntry ''docs/'')) = ''/home/u/out/docs''"
    by code_simp
  from directory_entry_frame [OF i u] k o j i show ?thesis by simp
qed

text \<open>
  Claim C10.  Two runs of \<open>main\<close> with the same flags in the same world (the same input
  directory, the same archives, the same working directory and the same failing
  operations), started with any two contents of the output paths, end the same way,
  create the same output paths in the same order, leave the same bytes in each of them
  and the same bytes in the aggregate file, and ask for the same directories.  What the
  output paths held before a run has no influence: every output file is truncated when
  it is created.
\<close>

theorem runs_agree:
  "fst (main cfg e fsA) = fst (main cfg e fsB)
   \<and> created (snd (main cfg e fsA)) = created (snd (main cfg e fsB))
   \<and> cat (snd (main cfg e fsA)) = cat (snd (main cfg e fsB))
   \<and> dirs (snd (main cfg e fsA)) = dirs (snd (main cfg e fsB))
   \<and> map (fs (snd (main cfg e fsA))) (created (snd (main cfg e fsA)))
       = map (fs (snd (main cfg e fsB))) (created (snd (main cfg e fsB)))"
  using same_main [of cfg e fsA fsB] by (simp add: sameResult_def sameOutput_def)

text \<open>
  A run on empty output paths and a run where \<open>/home/u/out/y.txt\<close> holds old bytes.
\<close>

theorem runs_agree_witness:
  "created (snd (main (flags ''in'' ''out'' ''.zip'') plainWorld Map.empty))
     = [''/home/u/out/docs/x.txt'', ''/home/u/out/y.txt'', ''/home/u/out/z.txt'']
   \<and> map (fs (snd (main (flags ''in'' ''out'' ''.zip'') plainWorld Map.empty)))
         [''/home/u/out/docs/x.txt'', ''/home/u/out/y.txt'', ''/home/u/out/z.txt'']
     = map (fs (snd (main (flags ''in'' ''out'' ''.zip'') plainWorld
                    [''/home/u/out/y.txt'' \<mapsto> ''old''])))
         [''/home/u/out/docs/x.txt'', ''/home/u/out/y.txt'', ''/home/u/out/z.txt'']
   \<and> cat (snd (main (flags ''in'' ''out'' ''.zip'') plainWorld Map.empty))
     = cat (snd (main (flags ''in'' ''out'' ''.zip'') plainWorld
                    [''/home/u/out/y.txt'' \<mapsto> ''old'']))"
  using runs_agree [of "flags ''in'' ''out'' ''.zip''" plainWorld Map.empty
                       "[''/home/u/out/y.txt'' \<mapsto> ''old'']"]
  by (simp only: plain_run)

end
